theory Spec2Isabelle
  imports Complex_Main "HOL-Library.Word"
begin

section \<open>Monark flywheel-log processing: the embedding\<close>

text \<open>
  The development embeds \<^verbatim>\<open>src/monark_processing/command.py\<close>: the tick decoder
  \<^verbatim>\<open>hex_to_int\<close>, the window smoother \<^verbatim>\<open>calc_window\<close> and the batch
  \<^verbatim>\<open>transform\<close>.

  Conventions of the embedding.
  \<^item> A Python \<^verbatim>\<open>str\<close> is a \<open>string\<close>; the characters covered are the code points
    below 256.
  \<^item> An exception is a value of \<open>error\<close>; a function that can raise returns
    \<open>error + 'a\<close> with \<open>Inl\<close> for the exception.
  \<^item> A float is a value of \<open>fval\<close>: a real number, one of the two infinities, or NaN.
    Arithmetic on finite values is exact (no rounding, overflow or underflow is
    modelled), a decimal literal is the rational it writes, and zero carries no sign
    (it behaves as \<^verbatim>\<open>+0.0\<close>). The special values follow IEEE 754 as numpy applies it
    to a column: no operation on a column raises. The embedding therefore differs from
    the 64-bit floats of the code where a rounding decides: a quotient that rounds onto
    a tie of \<^verbatim>\<open>round\<close>, a \<^verbatim>\<open>time_test\<close> that lies within a rounding error of
    half a second from the center of a window, and the sign of an infinity that comes
    from a negative zero. The inputs evaluated below keep away from these cases.
  \<^item> A pandas column is a list; a data frame is a list of row records, the row's
    index label being the field \<open>idx\<close>.
  \<^item> The two calls of the progress hook \<^verbatim>\<open>log_progress\<close> do not touch the data and
    are left out.
\<close>

subsection \<open>Exceptions\<close>

text \<open>
  \<^item> \<open>DecodeError\<close>: the \<^verbatim>\<open>ValueError\<close> that \<^verbatim>\<open>int(hex_reversed, 16)\<close> raises.
  \<^item> \<open>ConfigError\<close>: the \<^verbatim>\<open>ZeroDivisionError\<close> that
    \<^verbatim>\<open>14 / (52 * row["SamplingMagnets"] / 10000)\<close> raises.
  \<^item> \<open>RoundError\<close>: the \<^verbatim>\<open>ValueError\<close> that \<^verbatim>\<open>round\<close> raises on a NaN float.
  \<^item> \<open>IndexError\<close>: \<^verbatim>\<open>.iloc[0]\<close> on an empty column.
  \<^item> \<open>ConcatError\<close>: the \<^verbatim>\<open>ValueError\<close> of \<^verbatim>\<open>pd.concat([])\<close>.
\<close>

datatype error = DecodeError | ConfigError | RoundError | IndexError | ConcatError

subsection \<open>The tick decoder\<close>

text \<open>
  \<^verbatim>\<open>int(s, 16)\<close> accepts more than eight hexadecimal digits: following CPython's
  \<^verbatim>\<open>PyLong_FromString\<close>, it skips leading white space, takes an optional sign, an
  optional prefix \<^verbatim>\<open>0x\<close> or \<^verbatim>\<open>0X\<close> (one underscore may follow it), then digits
  with single underscores between them, then trailing white space up to the end of the
  string. White space is \<^verbatim>\<open>\t \n \v \f \r\<close> and the blank, and, since a string that
  is not ASCII has its Unicode white space replaced by blanks first, the code points
  \<^verbatim>\<open>0x85\<close> and \<^verbatim>\<open>0xA0\<close>.

  A \<open>string\<close> holds code points below 256 only, and so does everything said here about
  the decoder. Beyond them \<^verbatim>\<open>int(s, 16)\<close> also reads the decimal digits of other
  scripts and the other white space of Unicode; those strings are outside the embedding.
\<close>

definition digit_value :: "char \<Rightarrow> int option" where
  "digit_value c =
     (let n = (of_char c :: int) in
      if 48 \<le> n \<and> n \<le> 57 then Some (n - 48)
      else if 97 \<le> n \<and> n \<le> 102 then Some (n - 87)
      else if 65 \<le> n \<and> n \<le> 70 then Some (n - 55)
      else None)"

definition is_hexdigit :: "char \<Rightarrow> bool" where
  "is_hexdigit c = (digit_value c \<noteq> None)"

definition is_space :: "char \<Rightarrow> bool" where
  "is_space c =
     (let n = (of_char c :: int) in (9 \<le> n \<and> n \<le> 13) \<or> n = 32 \<or> n = 133 \<or> n = 160)"

text \<open>
  The digit loop of \<^verbatim>\<open>long_from_binary_base\<close>: \<open>prev\<close> is the character read
  before, \<open>acc\<close> the value so far. It stops at the first character that is neither a
  digit nor an underscore and returns the value with the unread rest; two underscores in
  a row or an underscore at the end are a syntax error.
\<close>

fun scan_digits :: "char \<Rightarrow> int \<Rightarrow> string \<Rightarrow> (int \<times> string) option" where
  "scan_digits prev acc [] = (if prev = CHR ''_'' then None else Some (acc, []))"
| "scan_digits prev acc (c # cs) =
     (if c = CHR ''_'' then (if prev = CHR ''_'' then None else scan_digits c acc cs)
      else (case digit_value c of
              Some d \<Rightarrow> scan_digits c (acc * 16 + d) cs
            | None \<Rightarrow> if prev = CHR ''_'' then None else Some (acc, c # cs)))"

definition skip_sign :: "string \<Rightarrow> int \<times> string" where
  "skip_sign s =
     (case s of
        [] \<Rightarrow> (1, s)
      | c # cs \<Rightarrow> if c = CHR ''+'' then (1, cs) else if c = CHR ''-'' then (- 1, cs) else (1, s))"

definition skip_prefix :: "string \<Rightarrow> string" where
  "skip_prefix s =
     (case s of
        c # x # r \<Rightarrow>
          if c = CHR ''0'' \<and> (x = CHR ''x'' \<or> x = CHR ''X'')
          then (case r of [] \<Rightarrow> r | u # r' \<Rightarrow> if u = CHR ''_'' then r' else r)
          else s
      | _ \<Rightarrow> s)"

definition py_int16 :: "string \<Rightarrow> int option" where
  "py_int16 s =
     (let (sign, s2) = skip_sign (dropWhile is_space s);
          s3 = skip_prefix s2
      in case s3 of
           [] \<Rightarrow> None
         | c # cs \<Rightarrow>
             if \<not> is_hexdigit c then None
             else (case scan_digits (CHR 0x00) 0 s3 of
                     None \<Rightarrow> None
                   | Some (v, rest) \<Rightarrow>
                       if dropWhile is_space rest = [] then Some (sign * v) else None))"

text \<open>
  \<^verbatim>\<open>hex_to_int\<close>: the slices \<^verbatim>\<open>hex_str[6:]\<close>, \<^verbatim>\<open>hex_str[4:6]\<close>, \<^verbatim>\<open>hex_str[2:4]\<close>
  and \<^verbatim>\<open>hex_str[0:2]\<close> are joined and parsed in base 16.
\<close>

definition hex_reversed :: "string \<Rightarrow> string" where
  "hex_reversed hex_str =
     drop 6 hex_str @ take 2 (drop 4 hex_str) @ take 2 (drop 2 hex_str) @ take 2 hex_str"

definition hex_to_int :: "string \<Rightarrow> error + int" where
  "hex_to_int hex_str =
     (case py_int16 (hex_reversed hex_str) of None \<Rightarrow> Inl DecodeError | Some v \<Rightarrow> Inr v)"

subsection \<open>Floats\<close>

datatype fval = Fin real | PInf | NInf | NaN

definition isnan :: "fval \<Rightarrow> bool" where
  "isnan v = (v = NaN)"

definition inf_of :: "bool \<Rightarrow> fval" where
  "inf_of positive = (if positive then PInf else NInf)"

fun fneg :: "fval \<Rightarrow> fval" where
  "fneg (Fin a) = Fin (- a)"
| "fneg PInf = NInf"
| "fneg NInf = PInf"
| "fneg NaN = NaN"

fun fadd :: "fval \<Rightarrow> fval \<Rightarrow> fval" where
  "fadd NaN _ = NaN"
| "fadd _ NaN = NaN"
| "fadd (Fin a) (Fin b) = Fin (a + b)"
| "fadd PInf NInf = NaN"
| "fadd NInf PInf = NaN"
| "fadd PInf _ = PInf"
| "fadd _ PInf = PInf"
| "fadd NInf _ = NInf"
| "fadd _ NInf = NInf"

definition fsub :: "fval \<Rightarrow> fval \<Rightarrow> fval" where
  "fsub a b = fadd a (fneg b)"

fun fmul :: "fval \<Rightarrow> fval \<Rightarrow> fval" where
  "fmul NaN _ = NaN"
| "fmul _ NaN = NaN"
| "fmul (Fin a) (Fin b) = Fin (a * b)"
| "fmul (Fin a) PInf = (if a = 0 then NaN else inf_of (0 < a))"
| "fmul (Fin a) NInf = (if a = 0 then NaN else inf_of (a < 0))"
| "fmul PInf (Fin b) = (if b = 0 then NaN else inf_of (0 < b))"
| "fmul NInf (Fin b) = (if b = 0 then NaN else inf_of (b < 0))"
| "fmul PInf PInf = PInf"
| "fmul NInf NInf = PInf"
| "fmul PInf NInf = NInf"
| "fmul NInf PInf = NInf"

fun fdiv :: "fval \<Rightarrow> fval \<Rightarrow> fval" where
  "fdiv NaN _ = NaN"
| "fdiv _ NaN = NaN"
| "fdiv (Fin a) (Fin b) =
     (if b = 0 then (if a = 0 then NaN else inf_of (0 < a)) else Fin (a / b))"
| "fdiv (Fin a) PInf = Fin 0"
| "fdiv (Fin a) NInf = Fin 0"
| "fdiv PInf (Fin b) = inf_of (0 \<le> b)"
| "fdiv NInf (Fin b) = inf_of (b < 0)"
| "fdiv PInf PInf = NaN"
| "fdiv PInf NInf = NaN"
| "fdiv NInf PInf = NaN"
| "fdiv NInf NInf = NaN"

text \<open>The comparison \<^verbatim>\<open><\<close>; it is false as soon as one side is NaN.\<close>

fun flt :: "fval \<Rightarrow> fval \<Rightarrow> bool" where
  "flt NaN _ = False"
| "flt _ NaN = False"
| "flt (Fin a) (Fin b) = (a < b)"
| "flt NInf NInf = False"
| "flt NInf _ = True"
| "flt PInf _ = False"
| "flt (Fin a) PInf = True"
| "flt (Fin a) NInf = False"

definition fgt :: "fval \<Rightarrow> fval \<Rightarrow> bool" where
  "fgt a b = flt b a"

fun fle :: "fval \<Rightarrow> fval \<Rightarrow> bool" where
  "fle NaN _ = False"
| "fle _ NaN = False"
| "fle a b = (\<not> flt b a)"

text \<open>
  \<^verbatim>\<open>round\<close> of Python and of numpy rounds a tie to the even neighbour. On a column
  it keeps the float type and the special values; with two decimals numpy scales by
  100, rounds and scales back.
\<close>

definition round_half_even :: "real \<Rightarrow> int" where
  "round_half_even x =
     (let f = \<lfloor>x\<rfloor>; d = x - of_int f
      in if d < 1 / 2 then f else if 1 / 2 < d then f + 1 else if even f then f else f + 1)"

fun fround :: "fval \<Rightarrow> fval" where
  "fround (Fin a) = Fin (of_int (round_half_even a))"
| "fround v = v"

fun fround2 :: "fval \<Rightarrow> fval" where
  "fround2 (Fin a) = Fin (of_int (round_half_even (a * 100)) / 100)"
| "fround2 v = v"

text \<open>\<^verbatim>\<open>math.pi\<close> is the double nearest to \<open>\<pi>\<close>; this is its exact value.\<close>

definition math_pi :: real where
  "math_pi = 884279719003555 / 281474976710656"

subsection \<open>Columns\<close>

text \<open>
  \<^verbatim>\<open>Series.shift(k)\<close> moves a column down by \<open>k\<close> rows and fills the top with NaN;
  \<^verbatim>\<open>Series.diff()\<close> subtracts the shifted column. \<^verbatim>\<open>Series.sum()\<close> skips NaN
  (\<^verbatim>\<open>skipna=True\<close>) and is \<open>0.0\<close> on an empty column.
\<close>

definition shift :: "nat \<Rightarrow> fval list \<Rightarrow> fval list" where
  "shift k xs = take (length xs) (replicate k NaN @ xs)"

definition col2 :: "(fval \<Rightarrow> fval \<Rightarrow> fval) \<Rightarrow> fval list \<Rightarrow> fval list \<Rightarrow> fval list" where
  "col2 f xs ys = map (\<lambda>(x, y). f x y) (zip xs ys)"

definition diff :: "fval list \<Rightarrow> fval list" where
  "diff xs = col2 fsub xs (shift 1 xs)"

definition sum_skipna :: "fval list \<Rightarrow> fval" where
  "sum_skipna xs = foldl fadd (Fin 0) (filter (\<lambda>v. \<not> isnan v) xs)"

subsection \<open>The input table and the frame of one attempt\<close>

text \<open>
  One row of the input table. A cell that is missing (\<^verbatim>\<open>None\<close>, or NaN in a column
  of numbers) is \<open>None\<close>, respectively \<open>NaN\<close>. The field \<open>in_time\<close> is the column
  \<^verbatim>\<open>_time\<close>.
\<close>

record attempt_row =
  in_FlyWheelLog :: string
  in_BoutNumber :: "int option"
  in_time :: "string option"
  in_LastName :: "string option"
  in_FirstName :: "string option"
  in_PersonWeight :: fval
  in_SamplingMagnets :: fval
  in_BrakeWeight :: fval
  in_Duration :: fval

text \<open>
  One row of \<^verbatim>\<open>res_df\<close>; \<open>idx\<close> is its index label, the position of the tick in the
  log. The two smoothed columns are added one after the other.
\<close>

record sample =
  idx :: nat
  timer :: int
  hex :: string
  Attempt :: "int option"
  Created :: "string option"
  LastName :: "string option"
  FirstName :: "string option"
  Weight :: fval
  Inertia :: fval
  Magnets :: int
  BrakeWeight :: fval
  time_elapsed :: fval
  time_test :: fval
  time_diff :: fval
  rpm :: fval
  time_test_diff :: fval
  power_brake :: fval
  power_kinetic :: fval
  time_recorded :: fval

record sample_pc = sample +
  power_centered :: fval

record sample_out = sample_pc +
  rpm_centered :: fval

text \<open>
  Line 76: \<^verbatim>\<open>round(14 / (52 * row["SamplingMagnets"] / 10000))\<close> on Python floats.
  The division by a zero raises; a NaN reaches \<^verbatim>\<open>round\<close>, which raises; an
  infinite value gives the quotient \<open>0.0\<close>.
\<close>

definition calc_magnets :: "fval \<Rightarrow> error + int" where
  "calc_magnets sm =
     (case fdiv (fmul (Fin 52) sm) (Fin 10000) of
        NaN \<Rightarrow> Inl RoundError
      | PInf \<Rightarrow> Inr 0
      | NInf \<Rightarrow> Inr 0
      | Fin d \<Rightarrow> if d = 0 then Inl ConfigError else Inr (round_half_even (14 / d)))"

text \<open>Lines 78 to 113, column by column; \<open>secs\<close> is not empty here.\<close>

definition col_timer :: "int list \<Rightarrow> fval list" where
  "col_timer secs = map (\<lambda>t. Fin (of_int t)) secs"

definition col_time_elapsed :: "int list \<Rightarrow> fval list" where
  "col_time_elapsed secs = map (\<lambda>t. fdiv (Fin (of_int (t - hd secs))) (Fin 57600)) secs"

definition col_time_test :: "int list \<Rightarrow> fval list" where
  "col_time_test secs =
     map (\<lambda>v. fdiv v (Fin 2))
       (col2 fadd (col_time_elapsed secs) (shift 1 (col_time_elapsed secs)))"

definition col_time_diff :: "int list \<Rightarrow> fval list" where
  "col_time_diff secs = diff (col_timer secs)"

definition col_rpm :: "int \<Rightarrow> int list \<Rightarrow> fval list" where
  "col_rpm m secs =
     map (\<lambda>d. fround (fdiv (Fin (14 * 60 * 57600)) (fmul (Fin (of_int (m * 52))) d)))
       (col_time_diff secs)"

definition col_time_test_diff :: "int list \<Rightarrow> fval list" where
  "col_time_test_diff secs = diff (col_time_test secs)"

definition col_power_brake :: "fval \<Rightarrow> int \<Rightarrow> int list \<Rightarrow> fval list" where
  "col_power_brake bw m secs =
     map (\<lambda>d. fdiv (fmul (fmul (fmul bw (Fin 9.81)) (Fin math_pi)) (Fin 0.514))
                  (fmul (Fin (of_int m)) d))
       (col_time_test_diff secs)"

definition col_power_kinetic :: "int \<Rightarrow> int list \<Rightarrow> fval list" where
  "col_power_kinetic m secs =
     (let t = col_timer secs; t1 = shift 1 t; t2 = shift 2 t;
          sq = (\<lambda>v. fmul v v);
          lhs = map (\<lambda>d. fdiv (fmul (Fin (4 * math_pi ^ 2 * 57600 ^ 3)) (Fin 0.91))
                              (fmul (Fin (of_int (m ^ 2))) d))
                    (col2 fsub t t2);
          rhs = col2 fsub
                  (map (\<lambda>d. fdiv (Fin 1) (sq d)) (col2 fsub t t1))
                  (map (\<lambda>d. fdiv (Fin 1) (sq d)) (col2 fsub t1 t2))
      in col2 fmul lhs rhs)"

definition col_time_recorded :: "fval \<Rightarrow> int list \<Rightarrow> fval list" where
  "col_time_recorded dur secs =
     map (\<lambda>e. fround2 (fadd (fsub e (last (col_time_elapsed secs))) dur))
       (col_time_elapsed secs)"

definition frame :: "attempt_row \<Rightarrow> int list \<Rightarrow> string list \<Rightarrow> int \<Rightarrow> sample list" where
  "frame row secs bufs m =
     map (\<lambda>i.
       \<lparr> idx = i,
         timer = secs ! i,
         hex = bufs ! i,
         Attempt = in_BoutNumber row,
         Created = in_time row,
         LastName = in_LastName row,
         FirstName = in_FirstName row,
         Weight = in_PersonWeight row,
         Inertia = Fin 0.91,
         Magnets = m,
         BrakeWeight = in_BrakeWeight row,
         time_elapsed = col_time_elapsed secs ! i,
         time_test = col_time_test secs ! i,
         time_diff = col_time_diff secs ! i,
         rpm = col_rpm m secs ! i,
         time_test_diff = col_time_test_diff secs ! i,
         power_brake = col_power_brake (in_BrakeWeight row) m secs ! i,
         power_kinetic = col_power_kinetic m secs ! i,
         time_recorded = col_time_recorded (in_Duration row) secs ! i \<rparr>)
       [0..<length secs]"

text \<open>\<^verbatim>\<open>dropna()\<close> removes every row that holds a missing value in any column.\<close>

definition has_na :: "'a sample_scheme \<Rightarrow> bool" where
  "has_na s \<longleftrightarrow>
     Attempt s = None \<or> Created s = None \<or> LastName s = None \<or> FirstName s = None \<or>
     isnan (Weight s) \<or> isnan (Inertia s) \<or> isnan (BrakeWeight s) \<or>
     isnan (time_elapsed s) \<or> isnan (time_test s) \<or> isnan (time_diff s) \<or>
     isnan (rpm s) \<or> isnan (time_test_diff s) \<or> isnan (power_brake s) \<or>
     isnan (power_kinetic s) \<or> isnan (time_recorded s)"

definition dropna :: "'a sample_scheme list \<Rightarrow> 'a sample_scheme list" where
  "dropna df = filter (\<lambda>s. \<not> has_na s) df"

subsection \<open>The window smoother\<close>

text \<open>
  \<^verbatim>\<open>calc_window\<close>. \<open>window\<close> is its \<^verbatim>\<open>sample_df\<close>. The last branch builds an
  \<^verbatim>\<open>AssertionError\<close> and drops it: nothing is raised, and \<^verbatim>\<open>result\<close> is still
  \<open>0.0\<close>. The sum skips NaN, the divisor \<^verbatim>\<open>sample_df.shape[0]\<close> counts every row.
\<close>

text \<open>
  The two bounds \<^verbatim>\<open>current_time - 0.5\<close> and \<^verbatim>\<open>current_time + 0.5\<close> are exact here
  and rounded in the code, so a sample at half a second from the center, to within a
  rounding error, can fall on the other side.
\<close>

definition window :: "fval \<Rightarrow> 'a sample_scheme list \<Rightarrow> 'a sample_scheme list" where
  "window current_time df =
     filter (\<lambda>s. fgt (time_test s) (fsub current_time (Fin 0.5)) \<and>
                 flt (time_test s) (fadd current_time (Fin 0.5))) df"

definition calc_window :: "fval \<Rightarrow> 'a sample_scheme list \<Rightarrow> string \<Rightarrow> fval" where
  "calc_window current_time df type_measurement =
     (let sample_df = window current_time df in
      if type_measurement = ''power'' then
        fround2 (fdiv (sum_skipna (map (\<lambda>s. fadd (power_brake s) (power_kinetic s)) sample_df))
                      (Fin (of_nat (length sample_df))))
      else if type_measurement = ''rpm'' then
        fround2 (fdiv (sum_skipna (map rpm sample_df)) (Fin (of_nat (length sample_df))))
      else Fin 0)"

subsection \<open>The batch transform\<close>

text \<open>A loop whose body can raise: the first exception ends it.\<close>

fun map_raise :: "('a \<Rightarrow> error + 'b) \<Rightarrow> 'a list \<Rightarrow> error + 'b list" where
  "map_raise f [] = Inr []"
| "map_raise f (x # xs) =
     (case f x of
        Inl e \<Rightarrow> Inl e
      | Inr y \<Rightarrow> (case map_raise f xs of Inl e \<Rightarrow> Inl e | Inr ys \<Rightarrow> Inr (y # ys)))"

text \<open>Lines 63 to 67: the chunks of eight characters, a shorter tail being left out.\<close>

definition chunks :: "string \<Rightarrow> string list" where
  "chunks s = map (\<lambda>i. take 8 (drop (i * 8) s)) [0..<length s div 8]"

text \<open>
  Line 114: the rows without a missing value, the first of them removed
  (\<^verbatim>\<open>.iloc[1:]\<close> of an empty frame is the empty frame).
\<close>

definition cleaned :: "attempt_row \<Rightarrow> int list \<Rightarrow> string list \<Rightarrow> int \<Rightarrow> sample list" where
  "cleaned row secs bufs m = drop 1 (dropna (frame row secs bufs m))"

text \<open>
  Lines 115 to 120: \<^verbatim>\<open>power_centered\<close> is computed from the frame as it is, then
  \<^verbatim>\<open>rpm_centered\<close> from the frame that holds \<^verbatim>\<open>power_centered\<close> already. Each
  \<^verbatim>\<open>apply\<close> calls \<^verbatim>\<open>calc_window\<close> once per row, with the row's own
  \<^verbatim>\<open>time_test\<close> and the whole frame.
\<close>

definition add_power_centered :: "sample list \<Rightarrow> sample_pc list" where
  "add_power_centered res_df =
     map (\<lambda>s. sample.extend s
                 (sample_pc.fields (calc_window (time_test s) res_df ''power''))) res_df"

definition add_rpm_centered :: "sample_pc list \<Rightarrow> sample_out list" where
  "add_rpm_centered res_df =
     map (\<lambda>s. sample_pc.extend s
                 (sample_out.fields (calc_window (time_test s) res_df ''rpm''))) res_df"

text \<open>The body of the loop over the rows, lines 61 to 121.\<close>

definition attempt_series :: "attempt_row \<Rightarrow> error + sample_out list" where
  "attempt_series row =
     (let bufs = chunks (in_FlyWheelLog row) in
      case map_raise hex_to_int bufs of
        Inl e \<Rightarrow> Inl e
      | Inr secs \<Rightarrow>
          (case calc_magnets (in_SamplingMagnets row) of
             Inl e \<Rightarrow> Inl e
           | Inr m \<Rightarrow>
               if secs = [] then Inl IndexError
               else Inr (add_rpm_centered (add_power_centered (cleaned row secs bufs m)))))"

text \<open>
  The whole of \<^verbatim>\<open>transform\<close>: the first exception of the loop ends the call, and
  \<^verbatim>\<open>pd.concat\<close> refuses an empty list of frames.
\<close>

definition transform :: "attempt_row list \<Rightarrow> error + sample_out list" where
  "transform df =
     (case map_raise attempt_series df of
        Inl e \<Rightarrow> Inl e
      | Inr dfs \<Rightarrow> if dfs = [] then Inl ConcatError else Inr (concat dfs))"

subsection \<open>The specification's side\<close>

text \<open>
  The definitions of this part follow the words of the specification, not the code; the
  theorems compare them with the code.

  The byte-order contract: a 32-bit value is written as four big-endian bytes, the order
  of the bytes is reversed, and each byte is written as two hexadecimal digits.
\<close>

definition spec_hex_digit :: "nat \<Rightarrow> char" where
  "spec_hex_digit d = char_of (if d < 10 then 48 + int d else 55 + int d)"

definition spec_hex_byte :: "nat \<Rightarrow> string" where
  "spec_hex_byte b = [spec_hex_digit (b div 16), spec_hex_digit (b mod 16)]"

definition spec_be_bytes :: "32 word \<Rightarrow> nat list" where
  "spec_be_bytes v = map (\<lambda>k. (unat v div 256 ^ k) mod 256) [3, 2, 1, 0]"

definition spec_encode :: "32 word \<Rightarrow> string" where
  "spec_encode v = concat (map spec_hex_byte (rev (spec_be_bytes v)))"

text \<open>A valid chunk: exactly eight hexadecimal digits.\<close>

definition spec_valid_chunk :: "string \<Rightarrow> bool" where
  "spec_valid_chunk s = (length s = 8 \<and> list_all is_hexdigit s)"

text \<open>
  The window of the specification: the samples whose \<^verbatim>\<open>time_test\<close> lies strictly
  inside the open interval of half a second on each side of the center; the mean of a
  list of values, which is undefined as soon as one value is; and the smoothed power of
  a sample of a series.
\<close>

fun spec_within :: "fval \<Rightarrow> fval \<Rightarrow> bool" where
  "spec_within (Fin a) (Fin c) = (c - 1 / 2 < a \<and> a < c + 1 / 2)"
| "spec_within _ _ = False"

definition spec_window :: "'a sample_scheme list \<Rightarrow> 'a sample_scheme \<Rightarrow> 'a sample_scheme list" where
  "spec_window series s = filter (\<lambda>x. spec_within (time_test x) (time_test s)) series"

definition spec_mean :: "fval list \<Rightarrow> fval" where
  "spec_mean vs = fdiv (foldl fadd (Fin 0) vs) (Fin (of_nat (length vs)))"

definition spec_power_centered :: "'a sample_scheme list \<Rightarrow> 'a sample_scheme \<Rightarrow> fval" where
  "spec_power_centered series s =
     fround2 (spec_mean (map (\<lambda>x. fadd (power_brake x) (power_kinetic x)) (spec_window series s)))"

subsection \<open>What the properties need\<close>

text \<open>
  The characters that \<^verbatim>\<open>int(s, 16)\<close> can read at all: digits, white space, the signs,
  the underscore and the letter of the prefix.
\<close>

definition literal_char :: "char \<Rightarrow> bool" where
  "literal_char c \<longleftrightarrow>
     is_hexdigit c \<or> is_space c \<or> c = CHR ''+'' \<or> c = CHR ''-'' \<or> c = CHR ''_'' \<or>
     c = CHR ''x'' \<or> c = CHR ''X''"

text \<open>The elapsed time of the tick at position \<open>i\<close>, as a real number.\<close>

definition elapsed_at :: "int list \<Rightarrow> nat \<Rightarrow> real" where
  "elapsed_at secs i = real_of_int (secs ! i - hd secs) / 57600"

text \<open>An input row with every cell present, for the examples.\<close>

definition example_row :: "string \<Rightarrow> fval \<Rightarrow> attempt_row" where
  "example_row flywheel_log sampling_magnets =
     \<lparr> in_FlyWheelLog = flywheel_log,
       in_BoutNumber = Some 1,
       in_time = Some ''2021-03-01T10:00:00'',
       in_LastName = Some ''Doe'',
       in_FirstName = Some ''Jo'',
       in_PersonWeight = Fin 80,
       in_SamplingMagnets = sampling_magnets,
       in_BrakeWeight = Fin 2,
       in_Duration = Fin 5 \<rparr>"

section \<open>Properties\<close>

subsection \<open>Arithmetic of floats\<close>

lemma fadd_NaN_right [simp]: "fadd x NaN = NaN" by (cases x) simp_all
lemma fmul_NaN_right [simp]: "fmul x NaN = NaN" by (cases x) simp_all
lemma fdiv_NaN_right [simp]: "fdiv x NaN = NaN" by (cases x) simp_all
lemma fsub_NaN_right [simp]: "fsub x NaN = NaN" by (simp add: fsub_def)
lemma fsub_NaN_left [simp]: "fsub NaN x = NaN" by (simp add: fsub_def)
lemma fsub_Fin [simp]: "fsub (Fin a) (Fin b) = Fin (a - b)" by (simp add: fsub_def)
lemma flt_NaN_right [simp]: "flt x NaN = False" by (cases x) simp_all
lemma isnan_simps [simp]: "isnan NaN" "\<not> isnan (Fin a)" "\<not> isnan PInf" "\<not> isnan NInf"
  by (simp_all add: isnan_def)

subsection \<open>The columns, row by row\<close>

lemma length_shift: "length (shift k xs) = length xs"
  by (simp add: shift_def)

lemma nth_shift: "i < length xs \<Longrightarrow> shift k xs ! i = (if i < k then NaN else xs ! (i - k))"
  by (simp add: shift_def nth_append)

lemma length_col2: "length (col2 f xs ys) = min (length xs) (length ys)"
  by (simp add: col2_def)

lemma nth_col2: "i < length xs \<Longrightarrow> i < length ys \<Longrightarrow> col2 f xs ys ! i = f (xs ! i) (ys ! i)"
  by (simp add: col2_def)

lemma length_diff: "length (diff xs) = length xs"
  by (simp add: diff_def length_col2 length_shift)

lemma nth_diff: "i < length xs \<Longrightarrow> diff xs ! i = (if i = 0 then NaN else fsub (xs ! i) (xs ! (i - 1)))"
  by (auto simp add: diff_def nth_col2 length_shift nth_shift)

lemma length_cols:
  "length (col_timer secs) = length secs"
  "length (col_time_elapsed secs) = length secs"
  "length (col_time_test secs) = length secs"
  "length (col_time_diff secs) = length secs"
  "length (col_rpm m secs) = length secs"
  "length (col_time_test_diff secs) = length secs"
  "length (col_power_brake bw m secs) = length secs"
  "length (col_power_kinetic m secs) = length secs"
  "length (col_time_recorded dur secs) = length secs"
  by (simp_all add: col_timer_def col_time_elapsed_def col_time_test_def col_time_diff_def
      col_rpm_def col_time_test_diff_def col_power_brake_def col_power_kinetic_def
      col_time_recorded_def length_diff length_col2 length_shift Let_def)

lemma nth_time_elapsed:
  "i < length secs \<Longrightarrow> col_time_elapsed secs ! i = Fin (elapsed_at secs i)"
  by (simp add: col_time_elapsed_def elapsed_at_def)

lemma nth_time_test:
  "i < length secs \<Longrightarrow>
     col_time_test secs ! i = (if i = 0 then NaN else Fin ((elapsed_at secs i + elapsed_at secs (i - 1)) / 2))"
  by (simp add: col_time_test_def nth_col2 length_col2 length_shift nth_shift length_cols
      nth_time_elapsed)

lemma nth_time_test_diff:
  "i < length secs \<Longrightarrow>
     col_time_test_diff secs ! i =
       (if i \<le> 1 then NaN
        else Fin ((elapsed_at secs i + elapsed_at secs (i - 1)) / 2 - (elapsed_at secs (i - 1) + elapsed_at secs (i - 2)) / 2))"
proof -
  assume i: "i < length secs"
  show ?thesis
  proof (cases "i = 0")
    case True
    then show ?thesis using i by (simp add: col_time_test_diff_def nth_diff length_cols)
  next
    case False
    then have p: "i - 1 < length secs" "i - 2 = i - 1 - 1" using i by simp_all
    show ?thesis using i False p(1)
      by (simp add: col_time_test_diff_def nth_diff length_cols nth_time_test p(2))
  qed
qed

lemma length_frame: "length (frame row secs bufs m) = length secs"
  by (simp add: frame_def)

lemma frame_fields:
  assumes "i < length secs"
  shows "idx (frame row secs bufs m ! i) = i"
    "timer (frame row secs bufs m ! i) = secs ! i"
    "time_elapsed (frame row secs bufs m ! i) = Fin (elapsed_at secs i)"
    "time_test (frame row secs bufs m ! i) = col_time_test secs ! i"
    "time_test_diff (frame row secs bufs m ! i) = col_time_test_diff secs ! i"
  using assms by (simp_all add: frame_def nth_time_elapsed)

lemma has_na_first_two:
  assumes "i < length secs" "i \<le> 1"
  shows "has_na (frame row secs bufs m ! i)"
  using assms by (simp add: has_na_def frame_fields nth_time_test_diff)


subsection \<open>The smoothing steps keep the rows\<close>

lemma extend_fields [simp]:
  "idx (sample.extend s x) = idx s"
  "time_elapsed (sample.extend s x) = time_elapsed s"
  "time_test (sample.extend s x) = time_test s"
  "rpm (sample.extend s x) = rpm s"
  "power_brake (sample.extend s x) = power_brake s"
  "power_kinetic (sample.extend s x) = power_kinetic s"
  by (simp_all add: sample.defs)

lemma extend_pc_fields [simp]:
  "idx (sample_pc.extend t y) = idx t"
  "time_elapsed (sample_pc.extend t y) = time_elapsed t"
  "time_test (sample_pc.extend t y) = time_test t"
  "rpm (sample_pc.extend t y) = rpm t"
  "power_brake (sample_pc.extend t y) = power_brake t"
  "power_kinetic (sample_pc.extend t y) = power_kinetic t"
  "power_centered (sample_pc.extend t y) = power_centered t"
  by (simp_all add: sample_pc.defs)

lemma power_centered_extend [simp]:
  "power_centered (sample.extend s (sample_pc.fields v)) = v"
  by (simp add: sample.defs sample_pc.defs)

lemma rpm_centered_extend [simp]:
  "rpm_centered (sample_pc.extend t (sample_out.fields v)) = v"
  by (simp add: sample_pc.defs sample_out.defs)

lemma length_smooth [simp]:
  "length (add_power_centered df) = length df"
  "length (add_rpm_centered df') = length df'"
  by (simp_all add: add_power_centered_def add_rpm_centered_def)

lemma map_smooth:
  "map idx (add_power_centered df) = map idx df"
  "map time_elapsed (add_power_centered df) = map time_elapsed df"
  "map time_test (add_power_centered df) = map time_test df"
  "map idx (add_rpm_centered df') = map idx df'"
  "map time_elapsed (add_rpm_centered df') = map time_elapsed df'"
  "map time_test (add_rpm_centered df') = map time_test df'"
  by (simp_all add: add_power_centered_def add_rpm_centered_def comp_def)

subsection \<open>Dropping rows\<close>

lemma map_idx_frame: "map idx (frame row secs bufs m) = [0..<length secs]"
  by (simp add: frame_def comp_def)

lemma dropna_frame:
  assumes "2 \<le> length secs"
    and "\<forall>i. 2 \<le> i \<and> i < length secs \<longrightarrow> \<not> has_na (frame row secs bufs m ! i)"
  shows "dropna (frame row secs bufs m) = drop 2 (frame row secs bufs m)"
proof -
  let ?F = "frame row secs bufs m"
  have len: "length ?F = length secs" by (rule length_frame)
  have a: "filter (\<lambda>s. \<not> has_na s) (take 2 ?F) = []"
  proof -
    have "\<forall>s\<in>set (take 2 ?F). has_na s"
    proof
      fix s assume "s \<in> set (take 2 ?F)"
      then obtain i where i: "i < length (take 2 ?F)" "s = take 2 ?F ! i"
        by (auto simp: in_set_conv_nth)
      then have "i < length secs" "i \<le> 1" "s = ?F ! i" using len assms(1) by simp_all
      then show "has_na s" using has_na_first_two by simp
    qed
    then show ?thesis by (simp add: filter_empty_conv)
  qed
  have b: "filter (\<lambda>s. \<not> has_na s) (drop 2 ?F) = drop 2 ?F"
  proof -
    have "\<forall>s\<in>set (drop 2 ?F). \<not> has_na s"
    proof
      fix s assume "s \<in> set (drop 2 ?F)"
      then obtain i where i: "i < length (drop 2 ?F)" "s = drop 2 ?F ! i"
        by (auto simp: in_set_conv_nth)
      then have "2 + i < length secs" "s = ?F ! (2 + i)" using len by simp_all
      then show "\<not> has_na s" using assms(2) by simp
    qed
    then show ?thesis by (simp add: filter_id_conv)
  qed
  have "dropna ?F = filter (\<lambda>s. \<not> has_na s) (take 2 ?F @ drop 2 ?F)"
    by (simp add: dropna_def)
  also have "\<dots> = drop 2 ?F" using a b by (simp only: filter_append append_Nil)
  finally show ?thesis .
qed


subsection \<open>The decoder on eight digits\<close>

lemma digit_value_hex_digit: "d < 16 \<Longrightarrow> digit_value (spec_hex_digit d) = Some (int d)"
  unfolding digit_value_def spec_hex_digit_def Let_def
  by (auto simp: take_bit_eq_mod)

lemma digit_value_range: "digit_value c = Some d \<Longrightarrow> 0 \<le> d \<and> d \<le> 15"
  unfolding digit_value_def Let_def by (auto split: if_splits)

lemma hexdigit_not_special:
  assumes "is_hexdigit c"
  shows "\<not> is_space c" "c \<noteq> CHR ''+''" "c \<noteq> CHR ''-''" "c \<noteq> CHR ''_''"
    "c \<noteq> CHR ''x''" "c \<noteq> CHR ''X''"
  using assms unfolding is_hexdigit_def is_space_def digit_value_def Let_def
  by (auto split: if_splits)

lemma py_int16_eight_digits:
  assumes "digit_value a = Some da" "digit_value b = Some db" "digit_value c = Some dc"
    "digit_value d = Some dd" "digit_value e = Some de" "digit_value f = Some df"
    "digit_value g = Some dg" "digit_value h = Some dh"
  shows "py_int16 [a, b, c, d, e, f, g, h] =
     Some (((((((da * 16 + db) * 16 + dc) * 16 + dd) * 16 + de) * 16 + df) * 16 + dg) * 16 + dh)"
proof -
  have hx: "is_hexdigit a" "is_hexdigit b" "is_hexdigit c" "is_hexdigit d"
    "is_hexdigit e" "is_hexdigit f" "is_hexdigit g" "is_hexdigit h"
    using assms by (simp_all add: is_hexdigit_def)
  note ns = hx[THEN hexdigit_not_special(1)] hx[THEN hexdigit_not_special(2)]
    hx[THEN hexdigit_not_special(3)] hx[THEN hexdigit_not_special(4)]
    hx[THEN hexdigit_not_special(5)] hx[THEN hexdigit_not_special(6)]
  show ?thesis
    using assms hx ns by (simp add: py_int16_def skip_sign_def skip_prefix_def)
qed

lemma length8_cases:
  assumes "length s = 8"
  obtains a b c d e f g h where "s = [a, b, c, d, e, f, g, h]"
proof -
  from assms obtain a s1 where 1: "s = a # s1" "length s1 = 7" by (cases s) auto
  then obtain b s2 where 2: "s1 = b # s2" "length s2 = 6" by (cases s1) auto
  then obtain c s3 where 3: "s2 = c # s3" "length s3 = 5" by (cases s2) auto
  then obtain d s4 where 4: "s3 = d # s4" "length s4 = 4" by (cases s3) auto
  then obtain e s5 where 5: "s4 = e # s5" "length s5 = 3" by (cases s4) auto
  then obtain f s6 where 6: "s5 = f # s6" "length s6 = 2" by (cases s5) auto
  then obtain g s7 where 7: "s6 = g # s7" "length s7 = 1" by (cases s6) auto
  then obtain h where 8: "s7 = [h]" by (cases s7) auto
  show ?thesis using that 1 2 3 4 5 6 7 8 by simp
qed

lemma hex_reversed_eight: "hex_reversed [a, b, c, d, e, f, g, h] = [g, h, e, f, c, d, a, b]"
  by (simp add: hex_reversed_def)

lemma valid_chunk_decodes:
  assumes "spec_valid_chunk s"
  shows "\<exists>n. hex_to_int s = Inr n \<and> 0 \<le> n \<and> n \<le> 2 ^ 32 - 1"
proof -
  from assms have len: "length s = 8" and hx: "list_all is_hexdigit s"
    by (simp_all add: spec_valid_chunk_def)
  from len obtain a b c d e f g h where s: "s = [a, b, c, d, e, f, g, h]"
    by (rule length8_cases)
  from hx s obtain da db dc dd de df dg dh where dv:
    "digit_value a = Some da" "digit_value b = Some db" "digit_value c = Some dc"
    "digit_value d = Some dd" "digit_value e = Some de" "digit_value f = Some df"
    "digit_value g = Some dg" "digit_value h = Some dh"
    by (auto simp: is_hexdigit_def)
  note r = dv[THEN digit_value_range]
  let ?n = "((((((dg * 16 + dh) * 16 + de) * 16 + df) * 16 + dc) * 16 + dd) * 16 + da) * 16 + db"
  have "hex_to_int s = Inr ?n"
    unfolding hex_to_int_def s hex_reversed_eight
    using py_int16_eight_digits[OF dv(7) dv(8) dv(5) dv(6) dv(3) dv(4) dv(1) dv(2)] by simp
  moreover have "0 \<le> ?n" using r by simp
  moreover have "?n \<le> 2 ^ 32 - 1" using r by simp
  ultimately show ?thesis by blast
qed

lemma byte_split: "int (b mod 256 div 16) * 16 + int (b mod 256 mod 16) = int (b mod 256)"
proof -
  have "b mod 256 div 16 * 16 + b mod 256 mod 16 = b mod 256" by simp
  then have "int (b mod 256 div 16 * 16 + b mod 256 mod 16) = int (b mod 256)"
    by (rule arg_cong)
  then show ?thesis by (simp only: of_nat_add of_nat_mult of_nat_numeral)
qed

lemma word_split:
  assumes "x < (4294967296::nat)"
  shows "((int (x div 16777216 mod 256) * 256 + int (x div 65536 mod 256)) * 256
          + int (x div 256 mod 256)) * 256 + int (x mod 256) = int x"
proof -
  have a: "x div 256 div 256 = x div 65536" "x div 65536 div 256 = x div 16777216"
    by (simp_all add: div_mult2_eq[symmetric])
  have b: "x div 16777216 mod 256 = x div 16777216" using assms by simp
  have 1: "x = x div 256 * 256 + x mod 256" by simp
  have 2: "x div 256 = x div 65536 * 256 + x div 256 mod 256"
    using a(1) by (metis div_mult_mod_eq)
  have 3: "x div 65536 = x div 16777216 mod 256 * 256 + x div 65536 mod 256"
    unfolding b using a(2) by (metis div_mult_mod_eq)
  have "((x div 16777216 mod 256 * 256 + x div 65536 mod 256) * 256
          + x div 256 mod 256) * 256 + x mod 256 = x"
    using 1 2 3 by presburger
  then have "int (((x div 16777216 mod 256 * 256 + x div 65536 mod 256) * 256
          + x div 256 mod 256) * 256 + x mod 256) = int x"
    by (rule arg_cong)
  then show ?thesis by (simp only: of_nat_add of_nat_mult of_nat_numeral)
qed

lemma hex_pair_shift: "(p * 16 + hi) * 16 + lo = p * 256 + (hi * 16 + lo)" for p :: int
  by simp

lemma encode_decodes: "hex_to_int (spec_encode v) = Inr (uint v)"
proof -
  define x where "x = unat v"
  have xb: "x < 4294967296" using unsigned_less[of v, where ?'a = nat] by (simp add: x_def)
  have dd: "\<And>b. digit_value (spec_hex_digit (b mod 256 div 16)) = Some (int (b mod 256 div 16))"
     "\<And>b. digit_value (spec_hex_digit (b mod 256 mod 16)) = Some (int (b mod 256 mod 16))"
    by (rule digit_value_hex_digit, simp)+
  have enc: "spec_encode v =
    [spec_hex_digit (x mod 256 div 16), spec_hex_digit (x mod 256 mod 16),
     spec_hex_digit (x div 256 mod 256 div 16), spec_hex_digit (x div 256 mod 256 mod 16),
     spec_hex_digit (x div 65536 mod 256 div 16), spec_hex_digit (x div 65536 mod 256 mod 16),
     spec_hex_digit (x div 16777216 mod 256 div 16),
     spec_hex_digit (x div 16777216 mod 256 mod 16)]"
    by (simp add: spec_encode_def spec_be_bytes_def spec_hex_byte_def x_def)
  have uv: "uint v = int x" by (simp add: x_def)
  have "py_int16 (hex_reversed (spec_encode v)) =
     Some (((((((int (x div 16777216 mod 256 div 16) * 16
      + int (x div 16777216 mod 256 mod 16)) * 16
      + int (x div 65536 mod 256 div 16)) * 16 + int (x div 65536 mod 256 mod 16)) * 16
      + int (x div 256 mod 256 div 16)) * 16 + int (x div 256 mod 256 mod 16)) * 16
      + int (x mod 256 div 16)) * 16 + int (x mod 256 mod 16))"
    unfolding enc hex_reversed_eight
    by (rule py_int16_eight_digits[OF dd(1) dd(2) dd(1) dd(2) dd(1) dd(2) dd(1) dd(2)])
  also have "(((((((int (x div 16777216 mod 256 div 16) * 16
      + int (x div 16777216 mod 256 mod 16)) * 16
      + int (x div 65536 mod 256 div 16)) * 16 + int (x div 65536 mod 256 mod 16)) * 16
      + int (x div 256 mod 256 div 16)) * 16 + int (x div 256 mod 256 mod 16)) * 16
      + int (x mod 256 div 16)) * 16 + int (x mod 256 mod 16))
     = ((int (x div 16777216 mod 256) * 256 + int (x div 65536 mod 256)) * 256
          + int (x div 256 mod 256)) * 256 + int (x mod 256)"
    by (simp only: hex_pair_shift byte_split)
  also have "\<dots> = uint v" unfolding uv by (rule word_split[OF xb])
  finally show ?thesis by (simp add: hex_to_int_def)
qed

lemma length_encode: "length (spec_encode v) = 8"
  by (simp add: spec_encode_def spec_be_bytes_def spec_hex_byte_def)

text \<open>
  C4. Writing a 32-bit value as four big-endian bytes, reversing their order and writing
  them in hexadecimal gives a chunk of eight characters that \<open>hex_to_int\<close> maps back
  to the value; the two known vectors decode to 1 and to 4294967295; and every chunk of
  eight hexadecimal digits decodes to a value between 0 and \<open>2^32 - 1\<close>.
\<close>

theorem decode_byte_order:
  "hex_to_int (spec_encode v) = Inr (uint v) \<and> length (spec_encode v) = 8 \<and>
   hex_to_int ''01000000'' = Inr 1 \<and> hex_to_int ''FFFFFFFF'' = Inr 4294967295 \<and>
   (\<forall>s. spec_valid_chunk s \<longrightarrow> (\<exists>n. hex_to_int s = Inr n \<and> 0 \<le> n \<and> n \<le> 2 ^ 32 - 1))"
proof -
  have "hex_to_int ''01000000'' = Inr 1" by code_simp
  moreover have "hex_to_int ''FFFFFFFF'' = Inr 4294967295" by code_simp
  ultimately show ?thesis
    using encode_decodes length_encode valid_chunk_decodes by blast
qed

theorem decode_byte_order_witness:
  "spec_valid_chunk ''78563412'' \<and> hex_to_int (spec_encode 305419896) = Inr 305419896 \<and>
   (\<exists>n. hex_to_int ''78563412'' = Inr n \<and> 0 \<le> n \<and> n \<le> 2 ^ 32 - 1)"
proof -
  have v: "spec_valid_chunk ''78563412''"
    by (simp add: spec_valid_chunk_def is_hexdigit_def digit_value_def)
  have u: "uint (305419896 :: 32 word) = 305419896" by simp
  show ?thesis using v u decode_byte_order[of 305419896] by simp
qed


subsection \<open>What the decoder refuses\<close>

lemma scan_digits_consumed:
  "scan_digits prev acc s = Some (v, rest) \<Longrightarrow>
     \<exists>body. s = body @ rest \<and> (\<forall>c\<in>set body. is_hexdigit c \<or> c = CHR ''_'')"
proof (induction s arbitrary: prev acc)
  case Nil
  then show ?case by (simp split: if_splits)
next
  case (Cons c cs)
  show ?case
  proof (cases "c = CHR ''_''")
    case True
    with Cons.prems have "scan_digits c acc cs = Some (v, rest)" by (simp split: if_splits)
    from Cons.IH[OF this] obtain body where "cs = body @ rest"
      "\<forall>c\<in>set body. is_hexdigit c \<or> c = CHR ''_''" by blast
    then have "c # cs = (c # body) @ rest \<and>
        (\<forall>c\<in>set (c # body). is_hexdigit c \<or> c = CHR ''_'')"
      using True by simp
    then show ?thesis by blast
  next
    case False
    show ?thesis
    proof (cases "digit_value c")
      case None
      with False Cons.prems have "rest = c # cs" by (simp split: if_splits)
      then have "c # cs = [] @ rest \<and> (\<forall>c\<in>set []. is_hexdigit c \<or> c = CHR ''_'')"
        by simp
      then show ?thesis by blast
    next
      case (Some d)
      with False Cons.prems have "scan_digits c (acc * 16 + d) cs = Some (v, rest)" by simp
      from Cons.IH[OF this] obtain body where "cs = body @ rest"
        "\<forall>c\<in>set body. is_hexdigit c \<or> c = CHR ''_''" by blast
      then have "c # cs = (c # body) @ rest \<and>
          (\<forall>c\<in>set (c # body). is_hexdigit c \<or> c = CHR ''_'')"
        using Some by (simp add: is_hexdigit_def)
      then show ?thesis by blast
    qed
  qed
qed

lemma set_dropWhile_cover: "set s \<subseteq> set (dropWhile P s) \<union> {c. P c}"
proof -
  have "set s = set (takeWhile P s) \<union> set (dropWhile P s)"
    by (metis set_append takeWhile_dropWhile_id)
  then show ?thesis by (auto dest: set_takeWhileD)
qed

lemma skip_sign_cover:
  "skip_sign s = (sg, s2) \<Longrightarrow> set s \<subseteq> set s2 \<union> {CHR ''+'', CHR ''-''}"
  by (cases s) (auto simp: skip_sign_def split: if_splits)

lemma skip_prefix_cover:
  "set s \<subseteq> set (skip_prefix s) \<union> {CHR ''0'', CHR ''x'', CHR ''X'', CHR ''_''}"
  by (auto simp: skip_prefix_def split: list.splits if_splits)

lemma zero_is_hexdigit: "is_hexdigit (CHR ''0'')"
  by (simp add: is_hexdigit_def digit_value_def)

lemma py_int16_chars:
  assumes "py_int16 t = Some v" and "c \<in> set t"
  shows "literal_char c"
proof -
  obtain sg s2 where ss: "skip_sign (dropWhile is_space t) = (sg, s2)"
    by (cases "skip_sign (dropWhile is_space t)")
  define s3 where "s3 = skip_prefix s2"
  from assms(1) ss obtain w rest where sc: "scan_digits (CHR 0x00) 0 s3 = Some (w, rest)"
    and tr: "dropWhile is_space rest = []"
    by (auto simp: py_int16_def s3_def Let_def split: list.splits if_splits option.splits)
  from scan_digits_consumed[OF sc] obtain body where b: "s3 = body @ rest"
    "\<forall>c\<in>set body. is_hexdigit c \<or> c = CHR ''_''" by blast
  from tr have r: "\<forall>c\<in>set rest. is_space c" by (simp add: dropWhile_eq_Nil_conv)
  have 3: "\<forall>c\<in>set s3. literal_char c" using b r by (auto simp: literal_char_def)
  have 2: "\<forall>c\<in>set s2. literal_char c"
    using skip_prefix_cover[of s2] 3 zero_is_hexdigit unfolding s3_def
    by (auto simp: literal_char_def)
  have 1: "\<forall>c\<in>set (dropWhile is_space t). literal_char c"
    using skip_sign_cover[OF ss] 2 by (auto simp: literal_char_def)
  show ?thesis using set_dropWhile_cover[of t is_space] 1 assms(2)
    by (auto simp: literal_char_def)
qed

lemma set_hex_reversed: "length s = 8 \<Longrightarrow> set (hex_reversed s) = set s"
proof -
  assume "length s = 8"
  then obtain a b c d e f g h where "s = [a, b, c, d, e, f, g, h]" by (rule length8_cases)
  then show ?thesis by (auto simp: hex_reversed_eight)
qed

lemma hex_to_int_error: "hex_to_int s = Inl e \<Longrightarrow> e = DecodeError"
  by (auto simp: hex_to_int_def split: option.splits)

text \<open>
  C6, as stated: a string of eight characters is refused exactly when it is not made of
  eight hexadecimal digits. The chunk \<^verbatim>\<open>5634120x\<close> is not made of eight digits, and
  it decodes: its bytes reordered read \<^verbatim>\<open>0x123456\<close>.
\<close>

theorem decode_refusal_counterexample:
  "length ''5634120x'' = 8 \<and> \<not> spec_valid_chunk ''5634120x'' \<and>
   hex_to_int ''5634120x'' = Inr 1193046"
proof -
  have "\<not> is_hexdigit (CHR ''x'')" by (simp add: is_hexdigit_def digit_value_def)
  then have "\<not> spec_valid_chunk ''5634120x''" by (simp add: spec_valid_chunk_def)
  moreover have "hex_to_int ''5634120x'' = Inr 1193046" by code_simp
  ultimately show ?thesis by simp
qed

text \<open>
  C6, amended: on a string of eight characters, all of them code points below 256, the
  decoder succeeds when the eight are hexadecimal digits, fails with no other error than
  \<open>DecodeError\<close>, and fails with it whenever one character is none of a hexadecimal
  digit, white space (\<^verbatim>\<open>\t \n \v \f \r\<close>, the blank, \<^verbatim>\<open>0x85\<close>, \<^verbatim>\<open>0xA0\<close>), a
  sign, an underscore or the letter x. The type \<open>string\<close> is that range of code points.
\<close>

theorem decode_refusal:
  assumes "length s = 8"
  shows "(spec_valid_chunk s \<longrightarrow> (\<exists>n. hex_to_int s = Inr n)) \<and>
         ((\<exists>c\<in>set s. \<not> literal_char c) \<longrightarrow> hex_to_int s = Inl DecodeError) \<and>
         (\<forall>e. hex_to_int s = Inl e \<longrightarrow> e = DecodeError)"
proof (intro conjI impI allI)
  assume "spec_valid_chunk s"
  from valid_chunk_decodes[OF this] show "\<exists>n. hex_to_int s = Inr n" by blast
next
  assume "\<exists>c\<in>set s. \<not> literal_char c"
  then obtain c where c: "c \<in> set s" "\<not> literal_char c" by blast
  then have "c \<in> set (hex_reversed s)" using assms by (simp add: set_hex_reversed)
  with c(2) have "py_int16 (hex_reversed s) = None"
    using py_int16_chars by (cases "py_int16 (hex_reversed s)") auto
  then show "hex_to_int s = Inl DecodeError" by (simp add: hex_to_int_def)
next
  fix e assume "hex_to_int s = Inl e"
  then show "e = DecodeError" by (rule hex_to_int_error)
qed

theorem decode_refusal_witness:
  "length ''0000G000'' = 8 \<and> (\<exists>c\<in>set ''0000G000''. \<not> literal_char c) \<and>
   hex_to_int ''0000G000'' = Inl DecodeError \<and>
   spec_valid_chunk ''40020000'' \<and> (\<exists>n. hex_to_int ''40020000'' = Inr n)"
proof -
  have g: "\<not> literal_char (CHR ''G'')"
    by (simp add: literal_char_def is_hexdigit_def digit_value_def is_space_def)
  have v: "spec_valid_chunk ''40020000''"
    by (simp add: spec_valid_chunk_def is_hexdigit_def digit_value_def)
  have l: "length ''0000G000'' = 8" "length ''40020000'' = 8" by simp_all
  show ?thesis
    using g v decode_refusal[OF l(1)] decode_refusal[OF l(2)] by simp
qed

subsection \<open>The window smoother on its own\<close>

text \<open>
  C1 says that a measurement kind other than \<^verbatim>\<open>power\<close> and \<^verbatim>\<open>rpm\<close> makes the
  smoother fail. The code builds the exception and does not raise it: for every such
  kind, every frame and every center the call returns \<open>0.0\<close>.
\<close>

theorem calc_window_other_kind:
  assumes "type_measurement \<noteq> ''power''" and "type_measurement \<noteq> ''rpm''"
  shows "calc_window current_time df type_measurement = Fin 0"
  using assms by (simp add: calc_window_def)

theorem calc_window_other_kind_witness:
  "''speed'' \<noteq> ''power'' \<and> ''speed'' \<noteq> ''rpm'' \<and>
   calc_window (Fin 1) ([] :: sample list) ''speed'' = Fin 0"
proof -
  have a: "''speed'' \<noteq> ''power''" "''speed'' \<noteq> ''rpm''" by simp_all
  show ?thesis using a calc_window_other_kind[OF a] by simp
qed

text \<open>
  C7. When no sample lies in the window, the smoother returns the value of a mean over
  no sample, \<open>0.0 / 0\<close>, which is NaN: it does not raise and returns no other value.
  The kinds are the two of the smoother's contract.
\<close>

theorem calc_window_empty_selection:
  assumes "window current_time df = []"
    and "type_measurement = ''power'' \<or> type_measurement = ''rpm''"
  shows "calc_window current_time df type_measurement = NaN"
  using assms by (auto simp: calc_window_def sum_skipna_def)

subsection \<open>Worked inputs\<close>

text \<open>
  Five ticks at 0, 576, 1152, 2304 and 2880, and the six ticks of the scenario of the
  specification, 576 apart.
\<close>

lemma five_ticks:
  "chunks ''00000000400200008004000000090000400B0000'' =
     [''00000000'', ''40020000'', ''80040000'', ''00090000'', ''400B0000'']"
  "map_raise hex_to_int (chunks ''00000000400200008004000000090000400B0000'') =
     Inr [0, 576, 1152, 2304, 2880]"
  by code_simp+

lemma six_ticks:
  "map_raise hex_to_int (chunks ''000000004002000080040000C006000000090000400B0000'') =
     Inr [0, 576, 1152, 1728, 2304, 2880]"
  by code_simp

lemma magnets_values:
  "calc_magnets (Fin 192) = Inr 14"
  "calc_magnets (Fin 10000) = Inr 0"
  "calc_magnets (Fin 0) = Inl ConfigError"
  by code_simp+

theorem calc_window_empty_selection_witness:
  "window (Fin 10)
     (cleaned (example_row ''00000000400200008004000000090000400B0000'' (Fin 192))
        [0, 576, 1152, 2304, 2880]
        [''00000000'', ''40020000'', ''80040000'', ''00090000'', ''400B0000''] 14) = [] \<and>
   length (cleaned (example_row ''00000000400200008004000000090000400B0000'' (Fin 192))
        [0, 576, 1152, 2304, 2880]
        [''00000000'', ''40020000'', ''80040000'', ''00090000'', ''400B0000''] 14) = 2 \<and>
   calc_window (Fin 10)
     (cleaned (example_row ''00000000400200008004000000090000400B0000'' (Fin 192))
        [0, 576, 1152, 2304, 2880]
        [''00000000'', ''40020000'', ''80040000'', ''00090000'', ''400B0000''] 14) ''rpm'' = NaN"
proof -
  let ?df = "cleaned (example_row ''00000000400200008004000000090000400B0000'' (Fin 192))
        [0, 576, 1152, 2304, 2880]
        [''00000000'', ''40020000'', ''80040000'', ''00090000'', ''400B0000''] 14"
  have w: "window (Fin 10) ?df = []" by code_simp
  have l: "length ?df = 2" by code_simp
  show ?thesis using w l calc_window_empty_selection[OF w, of "''rpm''"] by simp
qed

subsection \<open>The number of samples of an attempt\<close>

text \<open>
  C3, as stated: every attempt with \<open>N \<ge> 4\<close> decoded ticks gives \<open>N - 3\<close> samples.
  The scenario of the specification itself (six ticks 576 apart, sampling-magnets value
  10000, hence \<open>Magnets = round(14 / 52) = 0\<close>) gives none: on every row
  \<^verbatim>\<open>power_kinetic\<close> is an infinity times zero, NaN, and \<^verbatim>\<open>dropna\<close> removes the row.
\<close>

theorem sample_count_counterexample:
  "map_raise hex_to_int (chunks ''000000004002000080040000C006000000090000400B0000'') =
     Inr [0, 576, 1152, 1728, 2304, 2880] \<and>
   attempt_series
     (example_row ''000000004002000080040000C006000000090000400B0000'' (Fin 10000)) = Inr []"
  by code_simp

text \<open>
  C3, amended: when the log of an attempt decodes to \<open>N \<ge> 4\<close> ticks, the
  sampling-magnets value is accepted, and no row from position 2 on holds a missing
  value (NaN or an absent cell) in any column, the series has exactly \<open>N - 3\<close> samples
  and they are the rows of the positions 3 to \<open>N - 1\<close>.
\<close>

theorem sample_count:
  assumes "map_raise hex_to_int (chunks (in_FlyWheelLog row)) = Inr secs"
    and "calc_magnets (in_SamplingMagnets row) = Inr m"
    and "length secs = N" and "4 \<le> N"
    and "\<forall>i. 2 \<le> i \<and> i < N \<longrightarrow>
           \<not> has_na (frame row secs (chunks (in_FlyWheelLog row)) m ! i)"
  shows "\<exists>ss. attempt_series row = Inr ss \<and> length ss = N - 3 \<and> map idx ss = [3..<N]"
proof -
  let ?bufs = "chunks (in_FlyWheelLog row)"
  let ?F = "frame row secs ?bufs m"
  have ne: "secs \<noteq> []" using assms(3,4) by auto
  have d: "dropna ?F = drop 2 ?F"
    using dropna_frame[of secs row ?bufs m] assms(3,4,5) by simp
  have c: "cleaned row secs ?bufs m = drop 3 ?F"
    by (simp add: cleaned_def d numeral_3_eq_3)
  let ?ss = "add_rpm_centered (add_power_centered (cleaned row secs ?bufs m))"
  have 1: "attempt_series row = Inr ?ss"
    using assms(1,2) ne by (simp add: attempt_series_def)
  have 2: "length ?ss = N - 3" using assms(3) by (simp add: c length_frame)
  have "map idx ?ss = drop 3 (map idx ?F)" by (simp add: map_smooth c drop_map)
  also have "\<dots> = [3..<N]" using assms(3) by (simp add: map_idx_frame)
  finally have 3: "map idx ?ss = [3..<N]" .
  show ?thesis using 1 2 3 by blast
qed

theorem sample_count_witness:
  "map_raise hex_to_int (chunks ''00000000400200008004000000090000400B0000'') =
     Inr [0, 576, 1152, 2304, 2880] \<and>
   (\<exists>ss. attempt_series (example_row ''00000000400200008004000000090000400B0000'' (Fin 192))
            = Inr ss \<and> length ss = 5 - 3 \<and> map idx ss = [3..<5])"
proof -
  let ?row = "example_row ''00000000400200008004000000090000400B0000'' (Fin 192)"
  let ?secs = "[0, 576, 1152, 2304, 2880] :: int list"
  have lg: "in_FlyWheelLog ?row = ''00000000400200008004000000090000400B0000''"
    and sm: "in_SamplingMagnets ?row = Fin 192"
    by (simp_all add: example_row_def)
  have a: "map_raise hex_to_int (chunks (in_FlyWheelLog ?row)) = Inr ?secs"
    unfolding lg by (rule five_ticks(2))
  have b: "calc_magnets (in_SamplingMagnets ?row) = Inr 14"
    unfolding sm by (rule magnets_values(1))
  have n: "\<not> has_na (frame ?row ?secs (chunks (in_FlyWheelLog ?row)) 14 ! 2)"
    "\<not> has_na (frame ?row ?secs (chunks (in_FlyWheelLog ?row)) 14 ! 3)"
    "\<not> has_na (frame ?row ?secs (chunks (in_FlyWheelLog ?row)) 14 ! 4)"
    unfolding lg five_ticks(1) by code_simp+
  have h: "\<forall>i. 2 \<le> i \<and> i < 5 \<longrightarrow>
           \<not> has_na (frame ?row ?secs (chunks (in_FlyWheelLog ?row)) 14 ! i)"
  proof (intro allI impI)
    fix i :: nat assume "2 \<le> i \<and> i < 5"
    then have "i = 2 \<or> i = 3 \<or> i = 4" by arith
    then show "\<not> has_na (frame ?row ?secs (chunks (in_FlyWheelLog ?row)) 14 ! i)"
      using n by auto
  qed
  have l: "length ?secs = 5" "(4::nat) \<le> 5" by simp_all
  show ?thesis using sample_count[OF a b l h] five_ticks(2) by simp
qed


subsection \<open>Rows without a missing value\<close>

lemma nth_timer: "i < length secs \<Longrightarrow> col_timer secs ! i = Fin (real_of_int (secs ! i))"
  by (simp add: col_timer_def)

lemma nth_time_diff:
  assumes "i < length secs" "1 \<le> i"
  shows "col_time_diff secs ! i = Fin (real_of_int (secs ! i - secs ! (i - 1)))"
proof -
  have "i - 1 < length secs" using assms by simp
  then show ?thesis using assms
    by (simp add: col_time_diff_def nth_diff length_cols nth_timer)
qed

lemma finite_quotient: "b \<noteq> 0 \<Longrightarrow> fdiv (Fin a) (Fin b) = Fin (a / b)"
  by simp

lemma nth_rpm:
  assumes "i < length secs" "1 \<le> i" "m \<noteq> 0" "secs ! i \<noteq> secs ! (i - 1)"
  shows "\<not> isnan (col_rpm m secs ! i)"
  using assms by (simp add: col_rpm_def length_cols nth_time_diff)

lemma nth_power_brake:
  assumes "i < length secs" "2 \<le> i" "m \<noteq> 0" "secs ! i \<noteq> secs ! (i - 2)"
  shows "\<not> isnan (col_power_brake (Fin bw) m secs ! i)"
proof -
  have "elapsed_at secs i \<noteq> elapsed_at secs (i - 2)"
    using assms(4) by (simp add: elapsed_at_def)
  then have "(elapsed_at secs i + elapsed_at secs (i - 1)) / 2 -
      (elapsed_at secs (i - 1) + elapsed_at secs (i - 2)) / 2 \<noteq> 0" by (simp add: field_simps)
  then show ?thesis using assms(1,2,3)
    by (simp add: col_power_brake_def length_cols nth_time_test_diff)
qed

lemma nth_power_kinetic:
  assumes "i < length secs" "2 \<le> i" "m \<noteq> 0" "secs ! i \<noteq> secs ! (i - 2)"
    "secs ! i \<noteq> secs ! (i - 1)" "secs ! (i - 1) \<noteq> secs ! (i - 2)"
  shows "\<not> isnan (col_power_kinetic m secs ! i)"
proof -
  let ?t = "col_timer secs"
  have i1: "i - 1 < length secs" and i2: "i - 2 < length secs" using assms(1) by simp_all
  have s1: "shift (Suc 0) ?t ! i = Fin (real_of_int (secs ! (i - 1)))"
    using assms(1,2) i1 by (simp add: nth_shift length_cols nth_timer)
  have s2: "shift 2 ?t ! i = Fin (real_of_int (secs ! (i - 2)))"
    using assms(1,2) i2 by (simp add: nth_shift length_cols nth_timer)
  have t: "?t ! i = Fin (real_of_int (secs ! i))" using assms(1) by (rule nth_timer)
  have "col_power_kinetic m secs ! i =
      fmul (fdiv (fmul (Fin (4 * math_pi ^ 2 * 57600 ^ 3)) (Fin 0.91))
                 (fmul (Fin (of_int (m ^ 2))) (fsub (?t ! i) (shift 2 ?t ! i))))
           (fsub (fdiv (Fin 1) (fmul (fsub (?t ! i) (shift 1 ?t ! i)) (fsub (?t ! i) (shift 1 ?t ! i))))
                 (fdiv (Fin 1) (fmul (fsub (shift 1 ?t ! i) (shift 2 ?t ! i))
                                     (fsub (shift 1 ?t ! i) (shift 2 ?t ! i)))))"
    using assms(1)
    by (simp add: col_power_kinetic_def Let_def nth_col2 length_col2 length_shift length_cols)
  then show ?thesis using assms(3,4,5,6) by (simp add: t s1 s2)
qed

lemma nth_time_recorded:
  assumes "i < length secs"
  shows "\<not> isnan (col_time_recorded (Fin du) secs ! i)"
proof -
  have ne: "col_time_elapsed secs \<noteq> []" using assms by (auto simp: col_time_elapsed_def)
  have "last (col_time_elapsed secs) = col_time_elapsed secs ! (length secs - 1)"
    using ne by (simp add: last_conv_nth length_cols)
  also have "\<dots> = Fin (elapsed_at secs (length secs - 1))"
    using assms by (simp add: nth_time_elapsed)
  finally show ?thesis using assms
    by (simp add: col_time_recorded_def length_cols nth_time_elapsed)
qed

text \<open>
  With ticks that increase strictly, a \<^verbatim>\<open>Magnets\<close> other than zero, every cell of the
  input row present and a finite brake weight and duration, no row from position 2 on
  holds a missing value.
\<close>

lemma regular_rows_defined:
  assumes "sorted_wrt (<) secs" and "m \<noteq> 0"
    and "in_BoutNumber row \<noteq> None" "in_time row \<noteq> None"
    and "in_LastName row \<noteq> None" "in_FirstName row \<noteq> None"
    and "\<not> isnan (in_PersonWeight row)"
    and "in_BrakeWeight row = Fin bw" and "in_Duration row = Fin du"
    and "2 \<le> i" and "i < length secs"
  shows "\<not> has_na (frame row secs bufs m ! i)"
proof -
  have i1: "i - 1 < i" "i - 2 < i - 1" "i - 2 < i" using assms(10) by simp_all
  have lt: "secs ! (i - 1) < secs ! i" "secs ! (i - 2) < secs ! (i - 1)"
    "secs ! (i - 2) < secs ! i"
    using assms(1,11) i1 by (simp_all add: sorted_wrt_iff_nth_less)
  then have ne: "secs ! i \<noteq> secs ! (i - 1)" "secs ! (i - 1) \<noteq> secs ! (i - 2)"
    "secs ! i \<noteq> secs ! (i - 2)" by simp_all
  have ge1: "1 \<le> i" "i \<noteq> 0" "\<not> i \<le> 1" using assms(10) by simp_all
  note v1 = nth_rpm[OF assms(11) ge1(1) assms(2) ne(1)]
  note v2 = nth_power_brake[OF assms(11,10,2) ne(3), of bw]
  note v3 = nth_power_kinetic[OF assms(11,10,2) ne(3) ne(1) ne(2)]
  note v4 = nth_time_recorded[OF assms(11), of du]
  show ?thesis
    using assms(3-9,11) ge1
    by (simp add: has_na_def frame_def nth_time_elapsed nth_time_test nth_time_test_diff
        nth_time_diff v1 v2 v3 v4)
qed


subsection \<open>Elapsed time along a series\<close>

lemma fle_Fin [simp]: "fle (Fin a) (Fin b) = (a \<le> b)"
  by (simp add: not_less)

lemma attempt_series_Inr:
  assumes "attempt_series row = Inr ss"
  obtains secs m where
    "map_raise hex_to_int (chunks (in_FlyWheelLog row)) = Inr secs"
    "calc_magnets (in_SamplingMagnets row) = Inr m" "secs \<noteq> []"
    "ss = add_rpm_centered (add_power_centered
            (cleaned row secs (chunks (in_FlyWheelLog row)) m))"
  using assms by (auto simp: attempt_series_def Let_def split: sum.splits if_splits)

text \<open>
  C8, as stated: for every attempt with at least four ticks the elapsed time does not
  decrease along the series. The ticks 0, 576, 1152, 2304, 1728, 2880 give the elapsed
  times 0.04, 0.03 and 0.05 on the three samples.
\<close>

theorem elapsed_monotone_counterexample:
  "map_raise hex_to_int (chunks ''00000000400200008004000000090000C0060000'') =
     Inr [0, 576, 1152, 2304, 1728] \<and>
   (case attempt_series (example_row ''00000000400200008004000000090000C0060000'' (Fin 192)) of
      Inl e \<Rightarrow> False
    | Inr ss \<Rightarrow> map time_elapsed ss = [Fin (4 / 100), Fin (3 / 100)]) \<and>
   \<not> sorted_wrt fle [Fin (4 / 100), Fin (3 / 100)]"
proof -
  let ?log = "''00000000400200008004000000090000C0060000''"
  let ?row = "example_row ?log (Fin 192)"
  let ?secs = "[0, 576, 1152, 2304, 1728] :: int list"
  have lg: "in_FlyWheelLog ?row = ?log" and sm: "in_SamplingMagnets ?row = Fin 192"
    by (simp_all add: example_row_def)
  have a: "map_raise hex_to_int (chunks ?log) = Inr ?secs" by code_simp
  have r: "attempt_series ?row =
      Inr (add_rpm_centered (add_power_centered (cleaned ?row ?secs (chunks ?log) 14)))"
    by (simp add: attempt_series_def lg sm a magnets_values(1))
  have e: "map time_elapsed (cleaned ?row ?secs (chunks ?log) 14) =
      [Fin (4 / 100), Fin (3 / 100)]"
    by code_simp
  have n: "\<not> sorted_wrt fle [Fin (4 / 100), Fin (3 / 100)]" by simp
  show ?thesis using a n by (simp add: r map_smooth e)
qed

text \<open>
  C8, amended: when the decoded ticks of an attempt do not decrease, the elapsed time
  does not decrease along the samples of its series.
\<close>

theorem elapsed_monotone:
  assumes "map_raise hex_to_int (chunks (in_FlyWheelLog row)) = Inr secs"
    and "sorted secs"
    and "attempt_series row = Inr ss"
  shows "sorted_wrt fle (map time_elapsed ss)"
proof -
  let ?bufs = "chunks (in_FlyWheelLog row)"
  from assms(1,3) obtain m where
    ss: "ss = add_rpm_centered (add_power_centered (cleaned row secs ?bufs m))"
    by (auto elim!: attempt_series_Inr)
  let ?F = "frame row secs ?bufs m"
  let ?R = "\<lambda>x y. fle (time_elapsed x) (time_elapsed y)"
  have "sorted_wrt ?R ?F"
  proof (unfold sorted_wrt_iff_nth_less, intro allI impI)
    fix i j assume ij: "i < j" "j < length ?F"
    then have j: "j < length secs" and i: "i < length secs" by (simp_all add: length_frame)
    have "secs ! i \<le> secs ! j" using assms(2) ij(1) j by (simp add: sorted_iff_nth_mono)
    then have "elapsed_at secs i \<le> elapsed_at secs j"
      by (simp add: elapsed_at_def divide_right_mono)
    then show "?R (?F ! i) (?F ! j)" using i j by (simp add: frame_fields)
  qed
  then have "sorted_wrt ?R (cleaned row secs ?bufs m)"
    unfolding cleaned_def dropna_def by (intro sorted_wrt_drop sorted_wrt_filter)
  then have "sorted_wrt fle (map time_elapsed (cleaned row secs ?bufs m))"
    by (simp add: sorted_wrt_map)
  then show ?thesis by (simp add: ss map_smooth)
qed

theorem elapsed_monotone_witness:
  "sorted [0, 576, 1152, 2304, 2880 :: int] \<and>
   (case attempt_series (example_row ''00000000400200008004000000090000400B0000'' (Fin 192)) of
      Inl e \<Rightarrow> False
    | Inr ss \<Rightarrow> sorted_wrt fle (map time_elapsed ss))"
proof -
  let ?row = "example_row ''00000000400200008004000000090000400B0000'' (Fin 192)"
  let ?secs = "[0, 576, 1152, 2304, 2880] :: int list"
  have lg: "in_FlyWheelLog ?row = ''00000000400200008004000000090000400B0000''"
    and sm: "in_SamplingMagnets ?row = Fin 192"
    by (simp_all add: example_row_def)
  have a: "map_raise hex_to_int (chunks (in_FlyWheelLog ?row)) = Inr ?secs"
    unfolding lg by (rule five_ticks(2))
  have b: "calc_magnets (in_SamplingMagnets ?row) = Inr 14"
    unfolding sm by (rule magnets_values(1))
  have s: "sorted ?secs" by simp
  obtain ss where r: "attempt_series ?row = Inr ss"
    using a b by (simp add: attempt_series_def)
  show ?thesis using s elapsed_monotone[OF a s r] r by simp
qed

subsection \<open>The window of a sample holds the sample\<close>

lemma window_self:
  assumes "s \<in> set df" and "time_test s = Fin c"
  shows "s \<in> set (window (time_test s) df)"
  using assms by (simp add: window_def fgt_def)

lemma cleaned_time_test:
  assumes "s \<in> set (cleaned row secs bufs m)"
  shows "\<exists>c. time_test s = Fin c"
proof -
  from assms have "s \<in> set (dropna (frame row secs bufs m))"
    unfolding cleaned_def by (rule in_set_dropD)
  then have f: "s \<in> set (frame row secs bufs m)" and n: "\<not> has_na s"
    by (simp_all add: dropna_def)
  from f obtain i where i: "i < length secs" "s = frame row secs bufs m ! i"
    by (auto simp: in_set_conv_nth length_frame)
  from n have "time_test s \<noteq> NaN" by (auto simp: has_na_def isnan_def)
  then have "i \<noteq> 0" using i by (auto simp: frame_fields nth_time_test split: if_splits)
  then have "time_test s = Fin ((elapsed_at secs i + elapsed_at secs (i - 1)) / 2)"
    using i by (simp add: frame_fields nth_time_test)
  then show ?thesis by (rule exI)
qed

lemma add_power_centered_time_test:
  assumes "t \<in> set (add_power_centered df)"
  shows "\<exists>s\<in>set df. time_test t = time_test s"
  using assms by (auto simp: add_power_centered_def)

lemma add_rpm_centered_time_test:
  assumes "t \<in> set (add_rpm_centered df)"
  shows "\<exists>s\<in>set df. time_test t = time_test s"
  using assms by (auto simp: add_rpm_centered_def)

text \<open>
  C10. In the batch, the smoother is called on a frame for each of its own rows, with
  the row's \<^verbatim>\<open>time_test\<close> as the center: on the frame left by line 114 for
  \<^verbatim>\<open>power_centered\<close>, and on the frame that holds \<^verbatim>\<open>power_centered\<close> for
  \<^verbatim>\<open>rpm_centered\<close>. In both the window holds the row itself, so the divisor of the
  mean is at least 1; the same holds on the finished series.
\<close>

theorem window_never_empty:
  "(\<forall>s\<in>set (cleaned row secs bufs m).
      s \<in> set (window (time_test s) (cleaned row secs bufs m)) \<and>
      1 \<le> length (window (time_test s) (cleaned row secs bufs m))) \<and>
   (\<forall>t\<in>set (add_power_centered (cleaned row secs bufs m)).
      t \<in> set (window (time_test t) (add_power_centered (cleaned row secs bufs m))) \<and>
      1 \<le> length (window (time_test t) (add_power_centered (cleaned row secs bufs m)))) \<and>
   (\<forall>ss. attempt_series row = Inr ss \<longrightarrow>
      (\<forall>u\<in>set ss. u \<in> set (window (time_test u) ss) \<and>
                   1 \<le> length (window (time_test u) ss)))"
proof (intro conjI ballI allI impI)
  fix s assume s: "s \<in> set (cleaned row secs bufs m)"
  from cleaned_time_test[OF s] obtain c where "time_test s = Fin c" by blast
  with s show a: "s \<in> set (window (time_test s) (cleaned row secs bufs m))"
    by (rule window_self)
  show "1 \<le> length (window (time_test s) (cleaned row secs bufs m))"
    using length_pos_if_in_set[OF a] by (simp add: Suc_le_eq)
next
  fix t assume t: "t \<in> set (add_power_centered (cleaned row secs bufs m))"
  from add_power_centered_time_test[OF t] obtain s
    where "s \<in> set (cleaned row secs bufs m)" "time_test t = time_test s" by blast
  then obtain c where "time_test t = Fin c" using cleaned_time_test by metis
  with t show b: "t \<in> set (window (time_test t) (add_power_centered (cleaned row secs bufs m)))"
    by (rule window_self)
  show "1 \<le> length (window (time_test t) (add_power_centered (cleaned row secs bufs m)))"
    using length_pos_if_in_set[OF b] by (simp add: Suc_le_eq)
next
  fix ss u assume r: "attempt_series row = Inr ss" and u: "u \<in> set ss"
  from r obtain secs' m' where
    ss: "ss = add_rpm_centered (add_power_centered
                (cleaned row secs' (chunks (in_FlyWheelLog row)) m'))"
    by (auto elim!: attempt_series_Inr)
  from u add_rpm_centered_time_test obtain t
    where t: "t \<in> set (add_power_centered (cleaned row secs' (chunks (in_FlyWheelLog row)) m'))"
      "time_test u = time_test t" unfolding ss by blast
  from add_power_centered_time_test[OF t(1)] obtain s
    where "s \<in> set (cleaned row secs' (chunks (in_FlyWheelLog row)) m')"
      "time_test t = time_test s" by blast
  then obtain c where "time_test u = Fin c" using t(2) cleaned_time_test by metis
  with u show c: "u \<in> set (window (time_test u) ss)" by (rule window_self)
  show "1 \<le> length (window (time_test u) ss)"
    using length_pos_if_in_set[OF c] by (simp add: Suc_le_eq)
qed

theorem window_never_empty_witness:
  "length (cleaned (example_row ''00000000400200008004000000090000400B0000'' (Fin 192))
        [0, 576, 1152, 2304, 2880]
        [''00000000'', ''40020000'', ''80040000'', ''00090000'', ''400B0000''] 14) = 2 \<and>
   list_all (\<lambda>s. 1 \<le> length (window (time_test s)
        (cleaned (example_row ''00000000400200008004000000090000400B0000'' (Fin 192))
        [0, 576, 1152, 2304, 2880]
        [''00000000'', ''40020000'', ''80040000'', ''00090000'', ''400B0000''] 14)))
     (cleaned (example_row ''00000000400200008004000000090000400B0000'' (Fin 192))
        [0, 576, 1152, 2304, 2880]
        [''00000000'', ''40020000'', ''80040000'', ''00090000'', ''400B0000''] 14)"
proof -
  let ?df = "cleaned (example_row ''00000000400200008004000000090000400B0000'' (Fin 192))
        [0, 576, 1152, 2304, 2880]
        [''00000000'', ''40020000'', ''80040000'', ''00090000'', ''400B0000''] 14"
  have l: "length ?df = 2" by code_simp
  have "\<forall>s\<in>set ?df. 1 \<le> length (window (time_test s) ?df)"
    using window_never_empty[of
        "example_row ''00000000400200008004000000090000400B0000'' (Fin 192)"
        "[0, 576, 1152, 2304, 2880]"
        "[''00000000'', ''40020000'', ''80040000'', ''00090000'', ''400B0000'']" 14]
    by blast
  then show ?thesis using l by (simp add: list_all_iff)
qed

subsection \<open>The loop over the rows\<close>

lemma map_raise_fails:
  "x \<in> set xs \<Longrightarrow> f x = Inl e \<Longrightarrow> \<exists>e'. map_raise f xs = Inl e'"
proof (induction xs)
  case Nil
  then show ?case by simp
next
  case (Cons y ys)
  then show ?case by (cases "f y"; cases "map_raise f ys") auto
qed

lemma map_raise_first_failure:
  "\<forall>p\<in>set pre. \<not> isl (f p) \<Longrightarrow> f x = Inl e \<Longrightarrow> map_raise f (pre @ x # post) = Inl e"
proof (induction pre)
  case Nil
  then show ?case by simp
next
  case (Cons p pre)
  then show ?case by (cases "f p") auto
qed

lemma transform_fails:
  assumes "r \<in> set df" and "attempt_series r = Inl e"
  shows "\<exists>e'. transform df = Inl e'"
proof -
  from map_raise_fails[of r df attempt_series e] assms
  obtain e' where "map_raise attempt_series df = Inl e'" by blast
  then show ?thesis by (simp add: transform_def)
qed

lemma transform_first_failure:
  assumes "\<forall>p\<in>set pre. \<not> isl (attempt_series p)" and "attempt_series r = Inl e"
  shows "transform (pre @ r # post) = Inl e"
  using map_raise_first_failure[OF assms] by (simp add: transform_def)

lemma calc_magnets_zero: "calc_magnets (Fin 0) = Inl ConfigError"
  by (simp add: calc_magnets_def)

lemma chunks_short: "length s < 8 \<Longrightarrow> chunks s = []"
  by (simp add: chunks_def)

text \<open>
  C5, as stated: a sampling-magnets value of zero on any attempt makes the batch fail
  with \<open>ConfigError\<close>. When an attempt with an empty log stands before the attempt with
  the zero, the batch fails on the first of the two, with \<open>IndexError\<close>.
\<close>

theorem zero_magnets_counterexample:
  "in_SamplingMagnets (example_row ''0000000040020000'' (Fin 0)) = Fin 0 \<and>
   transform [example_row '''' (Fin 192), example_row ''0000000040020000'' (Fin 0)] =
     Inl IndexError"
  by code_simp

text \<open>
  C5, amended: when an attempt of the table has the sampling-magnets value zero, the
  batch fails and gives no row; the error is \<open>ConfigError\<close> when every attempt before
  that one is processed without an error and the log of that attempt decodes.
\<close>

theorem zero_magnets:
  assumes "r \<in> set df" and "in_SamplingMagnets r = Fin 0"
  shows "(\<exists>e. transform df = Inl e) \<and>
         (\<forall>pre post secs.
            df = pre @ r # post \<and> (\<forall>p\<in>set pre. \<not> isl (attempt_series p)) \<and>
            map_raise hex_to_int (chunks (in_FlyWheelLog r)) = Inr secs \<longrightarrow>
            transform df = Inl ConfigError)"
proof -
  have f: "\<exists>e. attempt_series r = Inl e"
    using assms(2) by (auto simp: attempt_series_def calc_magnets_zero Let_def split: sum.splits)
  then have 1: "\<exists>e. transform df = Inl e" using transform_fails[OF assms(1)] by blast
  have 2: "transform df = Inl ConfigError"
    if "df = pre @ r # post" "\<forall>p\<in>set pre. \<not> isl (attempt_series p)"
      "map_raise hex_to_int (chunks (in_FlyWheelLog r)) = Inr secs" for pre post secs
  proof -
    have "attempt_series r = Inl ConfigError"
      using assms(2) that(3) by (simp add: attempt_series_def calc_magnets_zero)
    then show ?thesis unfolding that(1) using that(2) by (intro transform_first_failure)
  qed
  show ?thesis using 1 2 by blast
qed

theorem zero_magnets_witness:
  "transform [example_row ''00000000400200008004000000090000400B0000'' (Fin 192),
              example_row ''0000000040020000'' (Fin 0)] = Inl ConfigError"
proof -
  let ?a = "example_row ''00000000400200008004000000090000400B0000'' (Fin 192)"
  let ?r = "example_row ''0000000040020000'' (Fin 0)"
  have m: "?r \<in> set [?a, ?r]" by simp
  have z: "in_SamplingMagnets ?r = Fin 0" by (simp add: example_row_def)
  have d: "map_raise hex_to_int (chunks (in_FlyWheelLog ?r)) = Inr [0, 576]"
    unfolding example_row_def by code_simp
  have "attempt_series ?a =
      Inr (add_rpm_centered (add_power_centered (cleaned ?a [0, 576, 1152, 2304, 2880]
             (chunks ''00000000400200008004000000090000400B0000'') 14)))"
    by (simp add: attempt_series_def example_row_def five_ticks(2) magnets_values(1))
  then have p: "\<forall>p\<in>set [?a]. \<not> isl (attempt_series p)" by simp
  have s: "[?a, ?r] = [?a] @ ?r # []" by simp
  show ?thesis using zero_magnets[OF m z] s p d by blast
qed

text \<open>
  C9, as stated: an attempt without any decoded tick makes the batch raise the error of
  indexing an empty column. When the sampling-magnets value of that attempt is zero, the
  error is raised one step before, by the division of line 76.
\<close>

theorem empty_log_counterexample:
  "length (in_FlyWheelLog (example_row ''0000'' (Fin 0))) < 8 \<and>
   transform [example_row ''0000'' (Fin 0)] = Inl ConfigError"
  by code_simp

text \<open>
  C9, amended: when the log of an attempt of the table is shorter than eight characters,
  the batch raises an error and gives no row, so no empty series is ever added; the
  error is the one of indexing the empty column of ticks when every attempt before that
  one is processed without an error and the sampling-magnets value of that attempt is
  accepted.
\<close>

theorem empty_log:
  assumes "r \<in> set df" and "length (in_FlyWheelLog r) < 8"
  shows "(\<exists>e. transform df = Inl e) \<and>
         (\<forall>pre post m.
            df = pre @ r # post \<and> (\<forall>p\<in>set pre. \<not> isl (attempt_series p)) \<and>
            calc_magnets (in_SamplingMagnets r) = Inr m \<longrightarrow>
            transform df = Inl IndexError)"
proof -
  have c: "chunks (in_FlyWheelLog r) = []" using assms(2) by (rule chunks_short)
  have f: "\<exists>e. attempt_series r = Inl e"
    by (auto simp: attempt_series_def c split: sum.splits)
  then have 1: "\<exists>e. transform df = Inl e" using transform_fails[OF assms(1)] by blast
  have 2: "transform df = Inl IndexError"
    if "df = pre @ r # post" "\<forall>p\<in>set pre. \<not> isl (attempt_series p)"
      "calc_magnets (in_SamplingMagnets r) = Inr m" for pre post m
  proof -
    have "attempt_series r = Inl IndexError"
      using that(3) by (simp add: attempt_series_def c)
    then show ?thesis unfolding that(1) using that(2) by (intro transform_first_failure)
  qed
  show ?thesis using 1 2 by blast
qed

theorem empty_log_witness:
  "length (in_FlyWheelLog (example_row ''0000'' (Fin 192))) < 8 \<and>
   transform [example_row ''00000000400200008004000000090000400B0000'' (Fin 192),
              example_row ''0000'' (Fin 192)] = Inl IndexError"
proof -
  let ?a = "example_row ''00000000400200008004000000090000400B0000'' (Fin 192)"
  let ?r = "example_row ''0000'' (Fin 192)"
  have m: "?r \<in> set [?a, ?r]" by simp
  have l: "length (in_FlyWheelLog ?r) < 8" by (simp add: example_row_def)
  have g: "calc_magnets (in_SamplingMagnets ?r) = Inr 14"
    by (simp add: example_row_def magnets_values(1))
  have "attempt_series ?a =
      Inr (add_rpm_centered (add_power_centered (cleaned ?a [0, 576, 1152, 2304, 2880]
             (chunks ''00000000400200008004000000090000400B0000'') 14)))"
    by (simp add: attempt_series_def example_row_def five_ticks(2) magnets_values(1))
  then have p: "\<forall>p\<in>set [?a]. \<not> isl (attempt_series p)" by simp
  have s: "[?a, ?r] = [?a] @ ?r # []" by simp
  show ?thesis using empty_log[OF m l] l s p g by blast
qed


subsection \<open>The smoothed power is not always a mean\<close>

text \<open>
  C2 says that \<^verbatim>\<open>power_centered\<close> is the mean of \<^verbatim>\<open>power_brake + power_kinetic\<close>
  over the window, rounded to two decimals, and the docstring of \<^verbatim>\<open>calc_window\<close>
  calls it a mean too. The code divides a sum that leaves the NaN terms out by the number
  of all the rows of the window, which is no mean once a term is NaN. One attempt with
  the ticks 0, 100, 300, 600, 1000 and the sampling-magnets value 10000 (so
  \<open>Magnets = 0\<close>) gives the two samples of the positions 3 and 4; each lies in the
  window of the other, \<^verbatim>\<open>power_brake\<close> is \<open>+\<infinity>\<close> and \<^verbatim>\<open>power_kinetic\<close> is \<open>-\<infinity>\<close>
  on both, so every term is NaN and so is the mean of the claim; the code returns
  \<open>0.0\<close> for both.
\<close>

theorem power_centered_skips_nan:
  "(case transform [example_row ''00000000640000002C01000058020000E8030000'' (Fin 10000)] of
      Inl e \<Rightarrow> False
    | Inr out \<Rightarrow>
        map idx out = [3, 4] \<and>
        map (\<lambda>u. map idx (window (time_test u) out)) out = [[3, 4], [3, 4]] \<and>
        map power_brake out = [PInf, PInf] \<and> map power_kinetic out = [NInf, NInf] \<and>
        map power_centered out = [Fin 0, Fin 0] \<and>
        map (spec_power_centered out) out = [NaN, NaN])"
  by code_simp

end
